theory Spec2Isabelle
  imports Complex_Main
begin

section \<open>Python values and exceptions\<close>

text \<open>
  The AI layer of the platform is Python. Exceptions are values of \<open>py_exn\<close>; a
  computation that may raise returns \<open>py_exn + 'a\<close> with \<open>Inl\<close> the exception.
\<close>

datatype py_exn =
  TypeError | ValueError | KeyError | IndexError | AttributeError
  | ModelError | BackendError | DatabaseError

text \<open>Sequencing of computations that may raise, and a loop body run over a list.\<close>

definition bind_exn :: "py_exn + 'a \<Rightarrow> ('a \<Rightarrow> py_exn + 'b) \<Rightarrow> py_exn + 'b" where
  "bind_exn m f = (case m of Inl e \<Rightarrow> Inl e | Inr x \<Rightarrow> f x)"

fun for_each :: "('a \<Rightarrow> py_exn + 'b) \<Rightarrow> 'a list \<Rightarrow> py_exn + 'b list" where
  "for_each f [] = Inr []"
| "for_each f (x # xs) =
     (case f x of
        Inl e \<Rightarrow> Inl e
      | Inr y \<Rightarrow> (case for_each f xs of Inl e \<Rightarrow> Inl e | Inr ys \<Rightarrow> Inr (y # ys)))"

text \<open>\<open>xs[i]\<close> for an index that is not negative.\<close>

definition py_index :: "'a list \<Rightarrow> nat \<Rightarrow> py_exn + 'a" where
  "py_index xs i = (if i < length xs then Inr (xs ! i) else Inl IndexError)"

text \<open>The truth value of an optional string: \<open>None\<close> and the empty string are false.\<close>

definition truthy :: "'a list option \<Rightarrow> bool" where
  "truthy s = (case s of None \<Rightarrow> False | Some t \<Rightarrow> t \<noteq> [])"

section \<open>Floats\<close>

text \<open>
  A Python float is an IEEE 754 double: a finite value, a NaN or an infinity. The
  finite doubles are the reals \<open>m * 2^e\<close> with \<open>|m| < 2^53\<close> and
  \<open>-1074 \<le> e \<le> 971\<close>; the two zeros are one value here, since no operation below
  tells them apart.
\<close>

datatype pyfloat = Finite real | NaN | PosInf | NegInf

definition is_double :: "real \<Rightarrow> bool" where
  "is_double x =
     (\<exists>m :: int. \<exists>k :: nat. \<bar>m\<bar> < 2 ^ 53
        \<and> ((k \<le> 971 \<and> x = of_int m * 2 ^ k) \<or> (k \<le> 1074 \<and> x = of_int m / 2 ^ k)))"

text \<open>
  The result of an arithmetic operation is the exact result rounded to the nearest
  double, to the one with the even significand when two are equally near, and to an
  infinity from \<open>2^1024 - 2^970\<close> on. A result that is a double is returned as it is.
\<close>

definition nearest_double :: "real \<Rightarrow> real \<Rightarrow> bool" where
  "nearest_double x y =
     (is_double y
      \<and> (\<forall>z. is_double z \<longrightarrow> \<bar>x - y\<bar> \<le> \<bar>x - z\<bar>)
      \<and> (\<forall>z. is_double z \<and> z \<noteq> y \<and> \<bar>x - z\<bar> = \<bar>x - y\<bar>
             \<longrightarrow> (\<exists>n :: int. y = of_int (2 * n) * (z - y))))"

definition round_double :: "real \<Rightarrow> pyfloat" where
  "round_double x =
     (if is_double x then Finite x
      else if 2 ^ 1024 - 2 ^ 970 \<le> x then PosInf
      else if x \<le> - (2 ^ 1024 - 2 ^ 970) then NegInf
      else Finite (SOME y. nearest_double x y))"

text \<open>Comparisons: every comparison with a NaN is false.\<close>

fun fle :: "pyfloat \<Rightarrow> pyfloat \<Rightarrow> bool" where
  "fle NaN y = False"
| "fle x NaN = False"
| "fle NegInf y = True"
| "fle x PosInf = True"
| "fle (Finite a) (Finite b) = (a \<le> b)"
| "fle x y = False"

fun flt :: "pyfloat \<Rightarrow> pyfloat \<Rightarrow> bool" where
  "flt NaN y = False"
| "flt x NaN = False"
| "flt (Finite a) (Finite b) = (a < b)"
| "flt NegInf NegInf = False"
| "flt NegInf y = True"
| "flt PosInf y = False"
| "flt x PosInf = True"
| "flt x y = False"

definition fge :: "pyfloat \<Rightarrow> pyfloat \<Rightarrow> bool" where
  "fge x y = fle y x"

definition fgt :: "pyfloat \<Rightarrow> pyfloat \<Rightarrow> bool" where
  "fgt x y = flt y x"

fun feq :: "pyfloat \<Rightarrow> pyfloat \<Rightarrow> bool" where
  "feq (Finite a) (Finite b) = (a = b)"
| "feq PosInf PosInf = True"
| "feq NegInf NegInf = True"
| "feq x y = False"

fun fabs :: "pyfloat \<Rightarrow> pyfloat" where
  "fabs (Finite a) = Finite \<bar>a\<bar>"
| "fabs NaN = NaN"
| "fabs PosInf = PosInf"
| "fabs NegInf = PosInf"

text \<open>The product of an infinity with a finite value of the sign of \<open>a\<close>.\<close>

definition inf_of_sign :: "real \<Rightarrow> pyfloat" where
  "inf_of_sign a = (if 0 < a then PosInf else if a < 0 then NegInf else NaN)"

fun fmul :: "pyfloat \<Rightarrow> pyfloat \<Rightarrow> pyfloat" where
  "fmul NaN y = NaN"
| "fmul x NaN = NaN"
| "fmul (Finite a) (Finite b) = round_double (a * b)"
| "fmul (Finite a) PosInf = inf_of_sign a"
| "fmul (Finite a) NegInf = inf_of_sign (- a)"
| "fmul PosInf (Finite b) = inf_of_sign b"
| "fmul NegInf (Finite b) = inf_of_sign (- b)"
| "fmul PosInf PosInf = PosInf"
| "fmul PosInf NegInf = NegInf"
| "fmul NegInf PosInf = NegInf"
| "fmul NegInf NegInf = PosInf"

fun fsub :: "pyfloat \<Rightarrow> pyfloat \<Rightarrow> pyfloat" where
  "fsub NaN y = NaN"
| "fsub x NaN = NaN"
| "fsub (Finite a) (Finite b) = round_double (a - b)"
| "fsub (Finite a) PosInf = NegInf"
| "fsub (Finite a) NegInf = PosInf"
| "fsub PosInf PosInf = NaN"
| "fsub NegInf NegInf = NaN"
| "fsub PosInf y = PosInf"
| "fsub NegInf y = NegInf"

text \<open>
  The doubles that the literals \<open>0.8\<close> and \<open>0.6\<close> of the source denote
  (\<open>0x1.999999999999ap-1\<close> and \<open>0x1.3333333333333p-1\<close>); the literals \<open>4.0\<close>,
  \<open>3.0\<close>, \<open>2.5\<close> and the integers are doubles themselves.
\<close>

definition lit_0_8 :: pyfloat where
  "lit_0_8 = Finite (3602879701896397 / 4503599627370496)"

definition lit_0_6 :: pyfloat where
  "lit_0_6 = Finite (5404319552844595 / 9007199254740992)"

text \<open>
  A numeric column of a result row after \<open>_execute_query\<close> has normalised it: a float
  (\<open>float(val)\<close>, which lets NaN and the infinities of the database through), or
  \<open>None\<close> for SQL NULL. \<open>float(None)\<close> raises \<open>TypeError\<close>.
\<close>

datatype pynum = Num pyfloat | Null

fun py_float :: "pynum \<Rightarrow> py_exn + pyfloat" where
  "py_float (Num x) = Inr x"
| "py_float Null = Inl TypeError"

text \<open>\<open>float(d.get(key, 0))\<close>: the field is \<open>None\<close> when the dict has no such key.\<close>

definition get_float :: "pynum option \<Rightarrow> py_exn + pyfloat" where
  "get_float f = (case f of None \<Rightarrow> Inr (Finite 0) | Some v \<Rightarrow> py_float v)"

section \<open>Anomaly classification (src/ai/anomaly_detector.py)\<close>

text \<open>
  An anomaly row is a dict; the fields the classifier reads and writes are modelled.
  \<open>severity\<close> and \<open>z_score_abs\<close> are the keys that \<open>_classify_anomalies\<close> sets.
\<close>

record anomaly =
  asset_name :: string
  anomaly_score :: "pynum option"
  daily_return :: "pynum option"
  severity :: "string option"
  z_score_abs :: "pyfloat option"

definition severity_of :: "pyfloat \<Rightarrow> string" where
  "severity_of z =
     (if fge z (Finite 4) then ''critical''
      else if fge z (Finite 3) then ''high''
      else if fge z (Finite (5 / 2)) then ''medium''
      else ''low'')"

text \<open>
  The absolute z-score of a row: \<open>abs(float(anomaly_score))\<close>, and when that equals
  zero the estimate \<open>abs(float(daily_return)) * 100\<close>.
\<close>

definition z_score_of :: "anomaly \<Rightarrow> py_exn + pyfloat" where
  "z_score_of a =
     (case get_float (anomaly_score a) of
        Inl e \<Rightarrow> Inl e
      | Inr s \<Rightarrow>
          if feq (fabs s) (Finite 0)
          then (case get_float (daily_return a) of
                  Inl e \<Rightarrow> Inl e
                | Inr d \<Rightarrow> Inr (fmul (fabs d) (Finite 100)))
          else Inr (fabs s))"

definition classify_anomaly :: "anomaly \<Rightarrow> py_exn + anomaly" where
  "classify_anomaly a =
     (case z_score_of a of
        Inl e \<Rightarrow> Inl e
      | Inr z \<Rightarrow> Inr (a\<lparr>severity := Some (severity_of z), z_score_abs := Some z\<rparr>))"

text \<open>The loop of \<open>_classify_anomalies\<close>; the first exception leaves the loop.\<close>

definition classify_anomalies :: "anomaly list \<Rightarrow> py_exn + anomaly list" where
  "classify_anomalies anomalies = for_each classify_anomaly anomalies"

text \<open>
  The ordinal of a severity label, as \<open>severity_order\<close> of src/ai/vector_store.py has
  it; \<open>severity_level\<close> is \<open>severity_order.get(s, 0)\<close>.
\<close>

definition severity_order :: "string \<rightharpoonup> nat" where
  "severity_order =
     [''low'' \<mapsto> 0, ''medium'' \<mapsto> 1, ''high'' \<mapsto> 2, ''critical'' \<mapsto> 3]"

definition severity_level :: "string \<Rightarrow> nat" where
  "severity_level s = (case severity_order s of None \<Rightarrow> 0 | Some n \<Rightarrow> n)"

section \<open>Strings\<close>

text \<open>
  A Python string is a sequence of Unicode code points: \<open>ustring\<close> is a list of code
  points, and \<open>ustr\<close> gives the code points of an ASCII literal of the source.
\<close>

type_synonym ustring = "nat list"

definition ustr :: "string \<Rightarrow> ustring" where
  "ustr s = map of_char s"

text \<open>
  What Python does with an ASCII character is written out below. What it does with
  the other code points comes from the Unicode database of the interpreter, which
  is a parameter: \<open>uni_alnum\<close> is \<open>str.isalnum\<close> and \<open>uni_space\<close> is \<open>str.isspace\<close> on
  a code point from 128 on, \<open>uni_lower\<close> and \<open>uni_upper\<close> are \<open>str.lower\<close> and
  \<open>str.upper\<close> on a string that has such a code point (there the result may be
  longer than the string and may depend on the neighbours of a character).
\<close>

record unicode_tables =
  uni_alnum :: "nat \<Rightarrow> bool"
  uni_space :: "nat \<Rightarrow> bool"
  uni_lower :: "ustring \<Rightarrow> ustring"
  uni_upper :: "ustring \<Rightarrow> ustring"

definition is_ascii :: "ustring \<Rightarrow> bool" where
  "is_ascii s = list_all (\<lambda>c. c < 128) s"

definition ascii_lower :: "nat \<Rightarrow> nat" where
  "ascii_lower c = (if 65 \<le> c \<and> c \<le> 90 then c + 32 else c)"

definition ascii_upper :: "nat \<Rightarrow> nat" where
  "ascii_upper c = (if 97 \<le> c \<and> c \<le> 122 then c - 32 else c)"

definition lower :: "unicode_tables \<Rightarrow> ustring \<Rightarrow> ustring" where
  "lower U s = (if is_ascii s then map ascii_lower s else uni_lower U s)"

definition upper :: "unicode_tables \<Rightarrow> ustring \<Rightarrow> ustring" where
  "upper U s = (if is_ascii s then map ascii_upper s else uni_upper U s)"

text \<open>
  White space, which \<open>strip()\<close> removes: the ASCII characters 9 to 13 and 28 to 32,
  and the code points from 128 on that the database calls white space.
\<close>

definition is_space :: "unicode_tables \<Rightarrow> nat \<Rightarrow> bool" where
  "is_space U c =
     (if c < 128 then (9 \<le> c \<and> c \<le> 13) \<or> (28 \<le> c \<and> c \<le> 32) else uni_space U c)"

definition strip :: "unicode_tables \<Rightarrow> ustring \<Rightarrow> ustring" where
  "strip U s = rev (dropWhile (is_space U) (rev (dropWhile (is_space U) s)))"

fun startswith :: "ustring \<Rightarrow> ustring \<Rightarrow> bool" where
  "startswith s [] = True"
| "startswith [] (p # ps) = False"
| "startswith (c # cs) (p # ps) = (c = p \<and> startswith cs ps)"

text \<open>\<open>kw in s\<close>: the substring test.\<close>

fun sub_in :: "ustring \<Rightarrow> ustring \<Rightarrow> bool" where
  "sub_in kw [] = (kw = [])"
| "sub_in kw (c # cs) = (startswith (c # cs) kw \<or> sub_in kw cs)"

subsection \<open>Word boundaries of regular expressions\<close>

text \<open>
  The class \<open>\w\<close> of a pattern that is a \<open>str\<close>: the underscore and every
  alphanumeric character, of ASCII or of the rest of Unicode.
\<close>

definition is_word_char :: "unicode_tables \<Rightarrow> nat \<Rightarrow> bool" where
  "is_word_char U c =
     (if c < 128
      then (48 \<le> c \<and> c \<le> 57) \<or> (65 \<le> c \<and> c \<le> 90) \<or> c = 95 \<or> (97 \<le> c \<and> c \<le> 122)
      else uni_alnum U c)"

fun opt_word :: "unicode_tables \<Rightarrow> nat option \<Rightarrow> bool" where
  "opt_word U None = False"
| "opt_word U (Some c) = is_word_char U c"

fun head_opt :: "ustring \<Rightarrow> nat option" where
  "head_opt [] = None"
| "head_opt (c # cs) = Some c"

text \<open>
  \<open>\b\<close> holds between the character before a position and the character after it
  (\<open>None\<close> at either end of the string) when exactly one of them is a word character.
\<close>

definition word_boundary :: "unicode_tables \<Rightarrow> nat option \<Rightarrow> nat option \<Rightarrow> bool" where
  "word_boundary U p n = (opt_word U p \<noteq> opt_word U n)"

text \<open>
  \<open>re.search(rf'\b{keyword}\b', s)\<close> for a keyword of literal characters: the
  pattern is tried at every position from the left; \<open>prev\<close> is the character before
  the position.
\<close>

definition match_word_at :: "unicode_tables \<Rightarrow> ustring \<Rightarrow> nat option \<Rightarrow> ustring \<Rightarrow> bool" where
  "match_word_at U kw prev s =
     (word_boundary U prev (head_opt s) \<and> startswith s kw
      \<and> word_boundary U (if kw = [] then prev else Some (last kw))
            (head_opt (drop (length kw) s)))"

fun search_word :: "unicode_tables \<Rightarrow> ustring \<Rightarrow> nat option \<Rightarrow> ustring \<Rightarrow> bool" where
  "search_word U kw prev [] = match_word_at U kw prev []"
| "search_word U kw prev (c # cs) =
     (match_word_at U kw prev (c # cs) \<or> search_word U kw (Some c) cs)"

definition re_search_word :: "unicode_tables \<Rightarrow> ustring \<Rightarrow> ustring \<Rightarrow> bool" where
  "re_search_word U kw s = search_word U kw None s"

text \<open>
  \<open>re.findall(r'\b[A-Z]{2,5}\b', s)\<close>. At a position the pattern needs a boundary,
  then between two and five of the capitals A to Z, the longest count first, then a
  boundary; \<open>match_ticker\<close> gives the length of the match. After a match the scan goes
  on behind it: \<open>skip\<close> counts the characters of the last match still to pass.
\<close>

definition is_upper :: "nat \<Rightarrow> bool" where
  "is_upper c = (65 \<le> c \<and> c \<le> 90)"

definition match_ticker :: "unicode_tables \<Rightarrow> nat option \<Rightarrow> ustring \<Rightarrow> nat option" where
  "match_ticker U prev s =
     (if word_boundary U prev (head_opt s)
      then find (\<lambda>m. word_boundary U (Some (s ! (m - 1))) (head_opt (drop m s)))
             (rev [2 ..< Suc (min 5 (length (takeWhile is_upper s)))])
      else None)"

fun findall_ticker :: "unicode_tables \<Rightarrow> nat \<Rightarrow> nat option \<Rightarrow> ustring \<Rightarrow> ustring list" where
  "findall_ticker U skip prev [] = []"
| "findall_ticker U skip prev (c # cs) =
     (if skip > 0 then findall_ticker U (skip - 1) (Some c) cs
      else (case match_ticker U prev (c # cs) of
              Some m \<Rightarrow> take m (c # cs) # findall_ticker U (m - 1) (Some c) cs
            | None \<Rightarrow> findall_ticker U 0 (Some c) cs))"

section \<open>Natural language to SQL (src/ai/nl_to_sql.py)\<close>

subsection \<open>\<open>_extract_assets\<close>\<close>

text \<open>The dict \<open>asset_keywords\<close>, in the order in which Python iterates over it.\<close>

definition asset_keywords :: "(ustring \<times> ustring) list" where
  "asset_keywords =
     [(ustr ''bitcoin'', ustr ''btc''), (ustr ''ethereum'', ustr ''eth''),
      (ustr ''apple'', ustr ''aapl''), (ustr ''microsoft'', ustr ''msft''),
      (ustr ''google'', ustr ''googl''), (ustr ''amazon'', ustr ''amzn''),
      (ustr ''tesla'', ustr ''tsla'')]"

text \<open>
  \<open>list(set(assets))\<close> removes duplicates and leaves the order to the hash table;
  \<open>remdups\<close> fixes one order, and only the set and the length of the result are
  meaningful.
\<close>

definition extract_assets :: "unicode_tables \<Rightarrow> ustring \<Rightarrow> ustring list" where
  "extract_assets U txt =
     (let assets = map snd (filter (\<lambda>(keyword, symbol). sub_in keyword txt) asset_keywords);
          tickers = findall_ticker U 0 None (upper U txt)
      in remdups (assets @ map (lower U) tickers))"

subsection \<open>\<open>_validate_sql\<close>\<close>

definition dangerous_keywords :: "ustring list" where
  "dangerous_keywords =
     map ustr [''drop'', ''delete'', ''truncate'', ''insert'', ''update'',
               ''alter'', ''create'', ''grant'', ''revoke'']"

text \<open>The error message of a rejection, by its kind.\<close>

datatype validation_error =
  Dangerous_keyword ustring | Only_select | Invalid_syntax | Parsing_error py_exn

text \<open>
  \<open>sqlparse.parse\<close> is a library outside the repository: it is the parameter
  \<open>sqlparse_parse\<close>, which raises or returns the list of parsed statements.
\<close>

definition validate_sql ::
  "unicode_tables \<Rightarrow> (ustring \<Rightarrow> py_exn + 'stmt list) \<Rightarrow> ustring
     \<Rightarrow> bool \<times> validation_error option" where
  "validate_sql U sqlparse_parse sql =
     (let sql_lower = strip U (lower U sql) in
      case find (\<lambda>keyword. re_search_word U keyword sql_lower) dangerous_keywords of
        Some keyword \<Rightarrow> (False, Some (Dangerous_keyword keyword))
      | None \<Rightarrow>
          if \<not> startswith sql_lower (ustr ''select'') then (False, Some Only_select)
          else (case sqlparse_parse sql of
                  Inl e \<Rightarrow> (False, Some (Parsing_error e))
                | Inr parsed \<Rightarrow>
                    if parsed = [] then (False, Some Invalid_syntax) else (True, None)))"

text \<open>
  What the specification calls a keyword that appears as a standalone word: an
  occurrence with no word character directly before it and none directly after it.
\<close>

definition standalone_word :: "unicode_tables \<Rightarrow> ustring \<Rightarrow> ustring \<Rightarrow> bool" where
  "standalone_word U kw s =
     (\<exists>pre post. s = pre @ kw @ post
        \<and> (pre = [] \<or> \<not> is_word_char U (last pre))
        \<and> (post = [] \<or> \<not> is_word_char U (hd post)))"

subsection \<open>\<open>process_query\<close>\<close>

datatype query_error =
  Could_not_generate | Validation_failed "validation_error option" | Execution_failed py_exn

text \<open>
  The dict that \<open>process_query\<close> returns; a field is \<open>None\<close> when the dict has no
  such key.
\<close>

record 'row nl_result =
  success :: bool
  failure :: "query_error option"
  suggestion :: "string option"
  sql :: "ustring option"
  results :: "'row list option"
  row_count :: "nat option"
  intent :: string
  confidence :: "real option"
  gen_method :: "string option"
  processing_time :: real

text \<open>
  The collaborators of \<open>process_query\<close> are parameters: \<open>classify\<close> is
  \<open>local_models.classify_query_intent\<close> (it has its own fallback and does not raise),
  \<open>template\<close> is \<open>_generate_sql_template\<close>, \<open>schema\<close> and \<open>generate_sql\<close> are the
  schema manager and \<open>hf_api.generate_sql_from_nl\<close>, \<open>execute_query\<close> is
  \<open>_execute_query\<close> with the database behind it, and \<open>elapsed\<close> is the time measured.
\<close>

definition process_query ::
  "unicode_tables \<Rightarrow> (ustring \<Rightarrow> string \<times> real) \<Rightarrow> (ustring \<Rightarrow> string \<Rightarrow> ustring option) \<Rightarrow>
   (ustring \<Rightarrow> ustring) \<Rightarrow> (ustring \<Rightarrow> ustring \<Rightarrow> ustring option) \<Rightarrow>
   (ustring \<Rightarrow> py_exn + 'stmt list) \<Rightarrow> (ustring \<Rightarrow> py_exn + 'row list) \<Rightarrow> real \<Rightarrow>
   ustring \<Rightarrow> bool \<Rightarrow> 'row nl_result" where
  "process_query U classify template schema generate_sql sqlparse_parse execute_query elapsed
       natural_language_query use_ai =
     (let (intent0, confidence0) = classify natural_language_query;
          (sql1, method1) =
            (if confidence0 > 0.7 \<or> \<not> use_ai
             then (template natural_language_query intent0, ''template'')
             else (None, ''attempted_template''));
          (sql2, method2) =
            (if \<not> truthy sql1 \<and> use_ai
             then (generate_sql natural_language_query (schema natural_language_query),
                   ''ai_generated'')
             else (sql1, method1))
      in case sql2 of
           None \<Rightarrow>
             \<lparr>success = False, failure = Some Could_not_generate,
              suggestion = Some ''Try rephrasing your question or be more specific'',
              sql = None, results = None, row_count = None, intent = intent0,
              confidence = Some confidence0, gen_method = None, processing_time = elapsed\<rparr>
         | Some sql_query \<Rightarrow>
             if sql_query = [] then
               \<lparr>success = False, failure = Some Could_not_generate,
                suggestion = Some ''Try rephrasing your question or be more specific'',
                sql = None, results = None, row_count = None, intent = intent0,
                confidence = Some confidence0, gen_method = None, processing_time = elapsed\<rparr>
             else
               (let (is_valid, validation_error) = validate_sql U sqlparse_parse sql_query in
                if \<not> is_valid then
                  \<lparr>success = False, failure = Some (Validation_failed validation_error),
                   suggestion = None, sql = Some sql_query, results = None, row_count = None,
                   intent = intent0, confidence = None, gen_method = Some method2,
                   processing_time = elapsed\<rparr>
                else
                  (case execute_query sql_query of
                     Inr rows \<Rightarrow>
                       \<lparr>success = True, failure = None, suggestion = None,
                        sql = Some sql_query, results = Some rows,
                        row_count = Some (length rows), intent = intent0,
                        confidence = Some confidence0, gen_method = Some method2,
                        processing_time = elapsed\<rparr>
                   | Inl e \<Rightarrow>
                       \<lparr>success = False, failure = Some (Execution_failed e),
                        suggestion = None, sql = Some sql_query, results = None,
                        row_count = None, intent = intent0, confidence = None,
                        gen_method = Some method2, processing_time = elapsed\<rparr>)))"

section \<open>Local embedding model (src/ai/local_models.py)\<close>

type_synonym vec = "real list"

text \<open>
  \<open>encode\<close> stands for loading the sentence-transformer on first use and calling its
  \<open>encode\<close>: it raises or returns one vector for each text. \<open>generate_embeddings\<close>
  wraps both in \<open>try\<close> and answers an exception with \<open>np.zeros((len(texts), 384))\<close>.
\<close>

definition generate_embeddings :: "(string list \<Rightarrow> py_exn + vec list) \<Rightarrow> string list \<Rightarrow> vec list" where
  "generate_embeddings encode texts =
     (case encode texts of
        Inr embeddings \<Rightarrow> embeddings
      | Inl e \<Rightarrow> replicate (length texts) (replicate 384 0))"

section \<open>Vector store (src/ai/vector_store.py)\<close>

text \<open>The values ChromaDB accepts in a metadata dict.\<close>

datatype mval = MStr string | MNum real | MBool bool

type_synonym metadata = "string \<rightharpoonup> mval"

text \<open>The keyword arguments of \<open>collection.add\<close>.\<close>

record add_request =
  add_embeddings :: "vec list"
  add_documents :: "string list"
  add_metadatas :: "metadata list"
  add_ids :: "string list"

text \<open>
  The dict that \<open>collection.query\<close> returns: for each query embedding the lists of
  ids, documents, metadata dicts (\<open>None\<close> for a record stored without one) and
  distances.
\<close>

record query_result =
  res_ids :: "string list list"
  res_documents :: "string list list"
  res_metadatas :: "metadata option list list"
  res_distances :: "pyfloat list list"

record similarity_match =
  match_id :: string
  description :: string
  metadata :: "metadata option"
  similarity :: pyfloat
  relevance :: string


definition add_anomaly ::
  "(string list \<Rightarrow> py_exn + vec list) \<Rightarrow> ('s \<Rightarrow> add_request \<Rightarrow> py_exn + 's) \<Rightarrow> string \<Rightarrow>
   's \<Rightarrow> string \<Rightarrow> string \<Rightarrow> string \<Rightarrow> metadata \<Rightarrow> 's" where
  "add_anomaly encode coll_add now_iso anomalies_collection
       anomaly_id anomaly_description sev md =
     (case bind_exn (py_index (generate_embeddings encode [anomaly_description]) 0)
             (\<lambda>embedding.
                let full_metadata =
                      [''severity'' \<mapsto> MStr sev, ''detected_at'' \<mapsto> MStr now_iso] ++ md
                in coll_add anomalies_collection
                     \<lparr>add_embeddings = [embedding], add_documents = [anomaly_description],
                      add_metadatas = [full_metadata], add_ids = [anomaly_id]\<rparr>) of
        Inr collection' \<Rightarrow> collection'
      | Inl e \<Rightarrow> anomalies_collection)"

subsection \<open>\<open>_format_results\<close>\<close>

definition format_row :: "query_result \<Rightarrow> nat \<Rightarrow> py_exn + similarity_match" where
  "format_row r i =
     bind_exn (py_index (res_ids r) 0) (\<lambda>ids0.
     bind_exn (py_index ids0 i) (\<lambda>rid.
     bind_exn (py_index (res_documents r) 0) (\<lambda>docs0.
     bind_exn (py_index docs0 i) (\<lambda>doc.
     bind_exn (py_index (res_metadatas r) 0) (\<lambda>mds0.
     bind_exn (py_index mds0 i) (\<lambda>md.
     bind_exn (py_index (res_distances r) 0) (\<lambda>dists0.
     bind_exn (py_index dists0 i) (\<lambda>d.
       Inr \<lparr>match_id = rid, description = doc, metadata = md,
            similarity = fsub (Finite 1) d,
            relevance = (if fgt (fsub (Finite 1) d) lit_0_8 then ''high''
                         else if fgt (fsub (Finite 1) d) lit_0_6 then ''medium''
                         else ''low'')\<rparr>))))))))"

definition format_results :: "query_result \<Rightarrow> py_exn + similarity_match list" where
  "format_results r =
     (case res_ids r of
        [] \<Rightarrow> Inr []
      | ids0 # _ \<Rightarrow>
          if ids0 = [] then Inr []
          else for_each (format_row r) [0 ..< length ids0])"

text \<open>
  The clamp into \<open>[0, 1]\<close> that the specification puts on the similarity, on the
  exact value.
\<close>

definition clamp01 :: "real \<Rightarrow> real" where
  "clamp01 x = max 0 (min 1 x)"

subsection \<open>\<open>search_similar_anomalies\<close>\<close>





section \<open>Hosted language model client (src/ai/hf_api.py)\<close>

text \<open>The fields of \<open>AIConfig\<close> that the client reads, with the defaults of src/ai/config.py.\<close>

record ai_config =
  hf_requests_per_day :: int
  hf_requests_per_month :: int
  temperature :: real

definition config :: ai_config where
  "config = \<lparr>hf_requests_per_day = 1000, hf_requests_per_month = 30000, temperature = 0.1\<rparr>"

text \<open>
  Times are microseconds on the clock of \<open>datetime.now()\<close>, dates are day numbers.
  The cache key is the string \<open>f"{prompt[:100]}_{max_new_tokens}_{temperature}"\<close>; the
  two numbers contain no underscore, so the string determines the three parts and the
  key is modelled as the triple.
\<close>

type_synonym cache_key = "string \<times> int \<times> real"

record hf_api =
  requests_today :: int
  last_reset_date :: int
  total_requests_month :: int
  last_request_time :: "int option"
  cache :: "cache_key \<rightharpoonup> (string \<times> int)"

definition date_of :: "int \<Rightarrow> int" where
  "date_of t = t div 86400000000"

definition cache_ttl :: int where
  "cache_ttl = 3600000000"

datatype rate_refusal = Daily_limit_reached int | Monthly_limit_reached int

text \<open>
  The body of a response as \<open>response.json()\<close> reads it: \<open>None\<close> when the body is
  not JSON (the call raises), a list of items or another value; an item is a dict,
  with its \<open>generated_text\<close> when it has one, or another value.
\<close>

datatype gen_item = Item_dict "string option" | Item_other

datatype json_value = Json_list "gen_item list" | Json_other

datatype http_outcome = Timeout | RequestFailed | Response int "json_value option"

text \<open>
  What one call of \<open>generate_text\<close> meets outside the process: the clock readings, in
  the order in which the call takes them, and the outcomes of the first
  \<open>requests.post\<close> and of the one after a 503. The two readings of the date in
  \<open>_check_rate_limits\<close> are one reading, and the sleep that spaces two requests by a
  second changes nothing but the clock.
\<close>

record call_env =
  now_cache :: int
  now_limits :: int
  post_first :: http_outcome
  post_retry :: http_outcome
  now_update :: int
  now_store :: int

text \<open>
  What a call leaves behind: the text returned (\<open>None\<close> for Python's \<open>None\<close>), the
  client afterwards, the number of \<open>requests.post\<close> calls made and the reason of a
  rate-limit refusal, which the call logs.
\<close>

record gen_outcome =
  generated :: "string option"
  api :: hf_api
  posts :: nat
  refused :: "rate_refusal option"

definition get_cache_key :: "ai_config \<Rightarrow> string \<Rightarrow> int \<Rightarrow> cache_key" where
  "get_cache_key cfg prompt max_new_tokens = (take 100 prompt, max_new_tokens, temperature cfg)"

definition check_cache :: "int \<Rightarrow> hf_api \<Rightarrow> cache_key \<Rightarrow> string option \<times> hf_api" where
  "check_cache now st cache_key =
     (case cache st cache_key of
        None \<Rightarrow> (None, st)
      | Some (cached_data, cached_time) \<Rightarrow>
          if now - cached_time < cache_ttl then (Some cached_data, st)
          else (None, st\<lparr>cache := (cache st)(cache_key := None)\<rparr>))"

definition check_rate_limits :: "ai_config \<Rightarrow> int \<Rightarrow> hf_api \<Rightarrow> (bool \<times> rate_refusal option) \<times> hf_api" where
  "check_rate_limits cfg now st =
     (let st1 = (if date_of now \<noteq> last_reset_date st
                 then st\<lparr>requests_today := 0, last_reset_date := date_of now\<rparr>
                 else st)
      in if requests_today st1 \<ge> hf_requests_per_day cfg
         then ((False, Some (Daily_limit_reached (hf_requests_per_day cfg))), st1)
         else if total_requests_month st1 \<ge> hf_requests_per_month cfg
         then ((False, Some (Monthly_limit_reached (hf_requests_per_month cfg))), st1)
         else ((True, None), st1))"

text \<open>
  The part of \<open>generate_text\<close> after the last \<open>requests.post\<close> has answered with
  \<open>status\<close> and \<open>body\<close>; \<open>n\<close> is the number of posts made. \<open>raise_for_status\<close>
  raises for a status from 400 to 599, before the counters are touched; every
  exception ends in \<open>return None\<close>.
\<close>

definition finish_request ::
  "call_env \<Rightarrow> hf_api \<Rightarrow> cache_key \<Rightarrow> bool \<Rightarrow> nat \<Rightarrow> int \<Rightarrow> json_value option \<Rightarrow> gen_outcome" where
  "finish_request env st cache_key use_cache n status body =
     (if 400 \<le> status \<and> status < 600
      then \<lparr>generated = None, api = st, posts = n, refused = None\<rparr>
      else
        (let st1 = st\<lparr>requests_today := requests_today st + 1,
                      total_requests_month := total_requests_month st + 1,
                      last_request_time := Some (now_update env)\<rparr>
         in case body of
              Some (Json_list (Item_dict g # _)) \<Rightarrow>
                (let generated_text = (case g of None \<Rightarrow> [] | Some t \<Rightarrow> t)
                 in \<lparr>generated = Some generated_text,
                     api = (if use_cache \<and> generated_text \<noteq> []
                            then st1\<lparr>cache := (cache st1)(cache_key \<mapsto> (generated_text, now_store env))\<rparr>
                            else st1),
                     posts = n, refused = None\<rparr>)
            | _ \<Rightarrow> \<lparr>generated = None, api = st1, posts = n, refused = None\<rparr>))"

definition send_request :: "call_env \<Rightarrow> hf_api \<Rightarrow> cache_key \<Rightarrow> bool \<Rightarrow> gen_outcome" where
  "send_request env st cache_key use_cache =
     (case post_first env of
        Response status body \<Rightarrow>
          if status = 503
          then (case post_retry env of
                  Response status' body' \<Rightarrow>
                    finish_request env st cache_key use_cache 2 status' body'
                | _ \<Rightarrow> \<lparr>generated = None, api = st, posts = 2, refused = None\<rparr>)
          else finish_request env st cache_key use_cache 1 status body
      | _ \<Rightarrow> \<lparr>generated = None, api = st, posts = 1, refused = None\<rparr>)"

definition generate_text ::
  "ai_config \<Rightarrow> call_env \<Rightarrow> hf_api \<Rightarrow> string \<Rightarrow> int \<Rightarrow> bool \<Rightarrow> gen_outcome" where
  "generate_text cfg env st prompt max_length use_cache =
     (let cache_key = get_cache_key cfg prompt max_length;
          (cached_result, st1) =
            (if use_cache then check_cache (now_cache env) st cache_key else (None, st))
      in if use_cache \<and> truthy cached_result
         then \<lparr>generated = cached_result, api = st1, posts = 0, refused = None\<rparr>
         else
           (let ((can_proceed, reason), st2) = check_rate_limits cfg (now_limits env) st1
            in if \<not> can_proceed
               then \<lparr>generated = None, api = st2, posts = 0, refused = reason\<rparr>
               else send_request env st2 cache_key use_cache))"

text \<open>
  A cache entry that \<open>generate_text\<close> would return at the time \<open>now\<close>: present, not
  empty and younger than the time to live.
\<close>

definition cache_fresh :: "int \<Rightarrow> hf_api \<Rightarrow> cache_key \<Rightarrow> bool" where
  "cache_fresh now st cache_key =
     (case cache st cache_key of
        None \<Rightarrow> False
      | Some (cached_data, cached_time) \<Rightarrow> cached_data \<noteq> [] \<and> now - cached_time < cache_ttl)"

text \<open>The client as \<open>__init__\<close> leaves it on the day \<open>today\<close>.\<close>

definition init_hf_api :: "int \<Rightarrow> hf_api" where
  "init_hf_api today =
     \<lparr>requests_today = 0, last_reset_date = today, total_requests_month = 0,
      last_request_time = None, cache = Map.empty\<rparr>"

text \<open>
  The number of \<open>requests.post\<close> calls of a call that goes to the network and gets an
  answer: two when the first answer is a 503, one otherwise.
\<close>

definition first_call_posts :: "call_env \<Rightarrow> nat" where
  "first_call_posts env =
     (case post_first env of Response status body \<Rightarrow> if status = 503 then 2 else 1 | _ \<Rightarrow> 1)"

section \<open>Loops that may raise\<close>

lemma for_each_Cons_Inr:
  assumes "for_each f (x # xs) = Inr ys"
  obtains y ys' where "f x = Inr y" and "for_each f xs = Inr ys'" and "ys = y # ys'"
  using assms by (auto split: sum.splits)

lemma for_each_length: "for_each f xs = Inr ys \<Longrightarrow> length ys = length xs"
proof (induction xs arbitrary: ys)
  case Nil
  then show ?case by simp
next
  case (Cons x xs)
  from Cons.prems obtain y ys' where "for_each f xs = Inr ys'" and "ys = y # ys'"
    by (rule for_each_Cons_Inr)
  with Cons.IH [of ys'] show ?case by simp
qed

lemma for_each_nth:
  "for_each f xs = Inr ys \<Longrightarrow> i < length xs \<Longrightarrow> f (xs ! i) = Inr (ys ! i)"
proof (induction xs arbitrary: ys i)
  case Nil
  then show ?case by simp
next
  case (Cons x xs)
  from Cons.prems(1) obtain y ys' where
    y: "f x = Inr y" and r: "for_each f xs = Inr ys'" and ys: "ys = y # ys'"
    by (rule for_each_Cons_Inr)
  show ?case
  proof (cases i)
    case 0
    with y ys show ?thesis by simp
  next
    case (Suc j)
    with Cons.prems(2) have "j < length xs" by simp
    from Cons.IH [OF r this] Suc ys show ?thesis by simp
  qed
qed

lemma for_each_member:
  assumes "for_each f xs = Inr ys" and "y \<in> set ys"
  shows "\<exists>x \<in> set xs. f x = Inr y"
proof -
  from assms(2) obtain i where i: "i < length ys" and y: "ys ! i = y"
    by (auto simp: in_set_conv_nth)
  from i for_each_length [OF assms(1)] have "i < length xs" by simp
  with for_each_nth [OF assms(1) this] y show ?thesis by auto
qed


lemma for_each_raises:
  "x \<in> set xs \<Longrightarrow> f x = Inl e \<Longrightarrow> \<exists>e'. for_each f xs = Inl e'"
proof (induction xs)
  case Nil
  then show ?case by simp
next
  case (Cons a xs)
  show ?case
  proof (cases "f a")
    case (Inl e0)
    then show ?thesis by simp
  next
    case (Inr y)
    show ?thesis
    proof (cases "x = a")
      case True
      with Cons.prems(2) Inr show ?thesis by simp
    next
      case False
      with Cons.prems have "x \<in> set xs" by simp
      from Cons.IH [OF this Cons.prems(2)] Inr show ?thesis by auto
    qed
  qed
qed

section \<open>Floats that are doubles\<close>

lemma round_double_exact: "is_double x \<Longrightarrow> round_double x = Finite x"
  by (simp add: round_double_def)

lemma is_double_frac: "\<bar>m\<bar> < 2 ^ 53 \<Longrightarrow> k \<le> 1074 \<Longrightarrow> is_double (of_int m / 2 ^ k)"
  unfolding is_double_def by (rule exI [of _ m], rule exI [of _ k]) simp

lemma is_double_minus_half: "is_double (- 1 / 2)"
  using is_double_frac [of "- 1" 1] by simp

lemma is_double_25_8: "is_double (25 / 8)"
  using is_double_frac [of 25 3] by simp

text \<open>
  A double from \<open>1/2\<close> on is a multiple of \<open>2^-53\<close>. So the difference
  \<open>1 - 0x1.9999999999999p-3\<close>, which lies a quarter of that step below the double
  \<open>0.8\<close>, is rounded to \<open>0.8\<close>.
\<close>

lemma double_grid:
  assumes d: "is_double z" and lo: "1 / 2 \<le> z"
  shows "\<exists>n :: int. z = of_int n / 2 ^ 53"
proof -
  from d obtain m :: int and k :: nat where m: "\<bar>m\<bar> < 2 ^ 53"
    and c: "(k \<le> 971 \<and> z = of_int m * 2 ^ k) \<or> (k \<le> 1074 \<and> z = of_int m / 2 ^ k)"
    unfolding is_double_def by blast
  from c show ?thesis
  proof
    assume "k \<le> 971 \<and> z = of_int m * 2 ^ k"
    then have "z = of_int (m * 2 ^ k * 2 ^ 53) / 2 ^ 53" by simp
    then show ?thesis by (rule exI)
  next
    assume a: "k \<le> 1074 \<and> z = of_int m / 2 ^ k"
    show ?thesis
    proof (cases "k \<le> 53")
      case True
      define P :: real where "P = 2 ^ 53"
      from True have p: "P = 2 ^ (53 - k) * 2 ^ k"
        unfolding P_def by (simp flip: power_add)
      have "real_of_int (m * 2 ^ (53 - k)) / P
              = real_of_int m * 2 ^ (53 - k) / (2 ^ (53 - k) * 2 ^ k)"
        by (simp add: p)
      also have "\<dots> = real_of_int m / 2 ^ k" by simp
      finally have "z = real_of_int (m * 2 ^ (53 - k)) / P" using a by simp
      then have "z = real_of_int (m * 2 ^ (53 - k)) / 2 ^ 53"
        unfolding P_def .
      then show ?thesis by (rule exI)
    next
      case False
      then have "54 \<le> k" by simp
      then have "(2 :: real) ^ 54 \<le> 2 ^ k"
        by (intro power_increasing) simp_all
      moreover from m have "real_of_int \<bar>m\<bar> < 2 ^ 53"
        by (metis of_int_less_numeral_power_cancel_iff)
      ultimately have "real_of_int \<bar>m\<bar> * 2 < 2 ^ k" by simp
      then have h: "real_of_int \<bar>m\<bar> / 2 ^ k < 1 / 2"
        by (simp add: field_simps)
      have "z \<le> real_of_int \<bar>m\<bar> / 2 ^ k"
        using a by (simp add: divide_right_mono)
      then have "z < 1 / 2" using h by (rule order_le_less_trans)
      with lo show ?thesis by linarith
    qed
  qed
qed


lemma far_from_0_8:
  assumes d: "is_double z" and ne: "z \<noteq> 7205759403792794 / 9007199254740992"
  shows "\<bar>28823037615171175 / 36028797018963968 - 7205759403792794 / 9007199254740992\<bar>
           < \<bar>28823037615171175 / 36028797018963968 - z\<bar>"
proof (cases "1 / 2 \<le> z")
  case False
  then show ?thesis by simp
next
  case True
  from double_grid [OF d True] obtain n :: int where z: "z = of_int n / 2 ^ 53" by blast
  from ne z have "n \<noteq> 7205759403792794" by auto
  then have "n \<le> 7205759403792793 \<or> 7205759403792795 \<le> n" by arith
  then show ?thesis
  proof
    assume "n \<le> 7205759403792793"
    then have "real_of_int n \<le> 7205759403792793" by linarith
    then have "z \<le> 7205759403792793 / 9007199254740992"
      unfolding z by simp
    then show ?thesis by simp
  next
    assume "7205759403792795 \<le> n"
    then have "7205759403792795 \<le> real_of_int n" by linarith
    then have "7205759403792795 / 9007199254740992 \<le> z"
      unfolding z by simp
    then show ?thesis by simp
  qed
qed

lemma is_double_0_8: "is_double (7205759403792794 / 9007199254740992)"
  using is_double_frac [of 7205759403792794 53] by simp

lemma round_double_near_0_8:
  "round_double (28823037615171175 / 36028797018963968)
     = Finite (7205759403792794 / 9007199254740992)"
proof -
  let ?x = "28823037615171175 / 36028797018963968 :: real"
  let ?y = "7205759403792794 / 9007199254740992 :: real"
  have nd: "\<not> is_double ?x"
  proof
    assume "is_double ?x"
    then have "\<bar>?x - ?y\<bar> < \<bar>?x - ?x\<bar>" by (rule far_from_0_8) simp
    then show False by simp
  qed
  have le: "\<bar>?x - ?y\<bar> \<le> \<bar>?x - z\<bar>" if "is_double z" for z
  proof (cases "z = ?y")
    case True
    then show ?thesis by simp
  next
    case False
    from far_from_0_8 [OF that False] show ?thesis by simp
  qed
  have tie: "\<not> (is_double z \<and> z \<noteq> ?y \<and> \<bar>?x - z\<bar> = \<bar>?x - ?y\<bar>)" for z
  proof
    assume a: "is_double z \<and> z \<noteq> ?y \<and> \<bar>?x - z\<bar> = \<bar>?x - ?y\<bar>"
    then have "\<bar>?x - ?y\<bar> < \<bar>?x - z\<bar>" by (intro far_from_0_8) simp_all
    with a show False by simp
  qed
  have near: "nearest_double ?x ?y"
    unfolding nearest_double_def using is_double_0_8 le tie by blast
  have uniq: "y = ?y" if "nearest_double ?x y" for y
  proof (rule ccontr)
    assume "y \<noteq> ?y"
    moreover from that have dy: "is_double y" and "\<bar>?x - y\<bar> \<le> \<bar>?x - ?y\<bar>"
      unfolding nearest_double_def using is_double_0_8 by blast+
    ultimately show False using far_from_0_8 [of y] by simp
  qed
  have "(SOME y. nearest_double ?x y) = ?y"
    using near uniq by (rule some_equality)
  then show ?thesis
    unfolding round_double_def using nd by simp
qed

section \<open>Severity thresholds\<close>

lemma severity_of_critical: "severity_of z = ''critical'' \<longleftrightarrow> fge z (Finite 4)"
  by (simp add: severity_of_def)

lemma severity_of_high:
  "severity_of z = ''high'' \<longleftrightarrow> fge z (Finite 3) \<and> flt z (Finite 4)"
  by (cases z) (auto simp: severity_of_def fge_def)

lemma severity_of_medium:
  "severity_of z = ''medium'' \<longleftrightarrow> fge z (Finite (5 / 2)) \<and> flt z (Finite 3)"
  by (cases z) (auto simp: severity_of_def fge_def)

lemma severity_of_low:
  "severity_of z = ''low'' \<longleftrightarrow> flt z (Finite (5 / 2)) \<or> z = NaN"
  by (cases z) (auto simp: severity_of_def fge_def)

lemma severity_level_of:
  "severity_level (severity_of z) =
     (if fge z (Finite 4) then 3 else if fge z (Finite 3) then 2
      else if fge z (Finite (5 / 2)) then 1 else 0)"
  by (simp add: severity_of_def severity_level_def severity_order_def)

lemma severity_of_mono:
  "fle z1 z2 \<Longrightarrow> severity_level (severity_of z1) \<le> severity_level (severity_of z2)"
  by (cases z1; cases z2) (auto simp: severity_level_of fge_def)

lemma classify_anomaly_fields:
  assumes "classify_anomaly a = Inr c"
  shows "\<exists>z. z_score_of a = Inr z \<and> z_score_abs c = Some z \<and> severity c = Some (severity_of z)"
  using assms by (auto simp: classify_anomaly_def split: sum.splits)

lemma classify_anomalies_fields:
  assumes "classify_anomalies rows = Inr out" and "c \<in> set out"
  shows "\<exists>a \<in> set rows. \<exists>z. z_score_of a = Inr z \<and> z_score_abs c = Some z
           \<and> severity c = Some (severity_of z)"
proof -
  from for_each_member [of classify_anomaly rows out c] assms
  obtain a where "a \<in> set rows" and "classify_anomaly a = Inr c"
    by (auto simp: classify_anomalies_def)
  with classify_anomaly_fields [of a c] show ?thesis by blast
qed

text \<open>
  Claim C1, as the code has it. Every row that \<open>_classify_anomalies\<close> returns carries
  the absolute z-score \<open>z\<close> computed from a row of the input, and its severity is
  fixed by \<open>z\<close> through the thresholds: critical iff \<open>z \<ge> 4.0\<close>, high iff
  \<open>3.0 \<le> z < 4.0\<close>, medium iff \<open>2.5 \<le> z < 3.0\<close>, and low in every other case,
  which is \<open>z < 2.5\<close> or \<open>z\<close> a NaN. The classification is monotonic non-decreasing
  in \<open>z\<close> for the ordinal low < medium < high < critical and the order \<open>\<le>\<close> of
  the floats.
\<close>

theorem severity_thresholds:
  assumes "classify_anomalies rows = Inr out" and "c \<in> set out"
  shows "\<exists>z. (\<exists>a \<in> set rows. z_score_of a = Inr z)
           \<and> z_score_abs c = Some z \<and> severity c = Some (severity_of z)
           \<and> (severity c = Some ''critical'' \<longleftrightarrow> fge z (Finite 4))
           \<and> (severity c = Some ''high'' \<longleftrightarrow> fge z (Finite 3) \<and> flt z (Finite 4))
           \<and> (severity c = Some ''medium'' \<longleftrightarrow> fge z (Finite (5 / 2)) \<and> flt z (Finite 3))
           \<and> (severity c = Some ''low'' \<longleftrightarrow> flt z (Finite (5 / 2)) \<or> z = NaN)
           \<and> (\<forall>z'. fle z z' \<longrightarrow>
                 severity_level (severity_of z) \<le> severity_level (severity_of z'))
           \<and> (\<forall>z'. fle z' z \<longrightarrow>
                 severity_level (severity_of z') \<le> severity_level (severity_of z))"
proof -
  from classify_anomalies_fields [OF assms] obtain a z where
    a: "a \<in> set rows" "z_score_of a = Inr z" and
    z: "z_score_abs c = Some z" and s: "severity c = Some (severity_of z)"
    by blast
  from a have src: "\<exists>a \<in> set rows. z_score_of a = Inr z" by blast
  show ?thesis
    using src z s severity_of_critical [of z] severity_of_high [of z]
      severity_of_medium [of z] severity_of_low [of z]
    by (intro exI [of _ z]) (simp add: severity_of_mono)
qed

lemma classify_example:
  "classify_anomalies
     [\<lparr>asset_name = ''BTC'', anomaly_score = Some (Num (Finite (- 9 / 2))),
       daily_return = Some (Num (Finite (1 / 64))), severity = None, z_score_abs = None\<rparr>,
      \<lparr>asset_name = ''ETH'', anomaly_score = None,
       daily_return = Some (Num (Finite (- 1 / 32))), severity = None, z_score_abs = None\<rparr>]
   = Inr
     [\<lparr>asset_name = ''BTC'', anomaly_score = Some (Num (Finite (- 9 / 2))),
       daily_return = Some (Num (Finite (1 / 64))), severity = Some ''critical'',
       z_score_abs = Some (Finite (9 / 2))\<rparr>,
      \<lparr>asset_name = ''ETH'', anomaly_score = None,
       daily_return = Some (Num (Finite (- 1 / 32))), severity = Some ''high'',
       z_score_abs = Some (Finite (25 / 8))\<rparr>]"
  using round_double_exact [OF is_double_25_8]
  by (simp add: classify_anomalies_def classify_anomaly_def z_score_of_def get_float_def
      severity_of_def fge_def)

theorem severity_thresholds_witness:
  "classify_anomalies
     [\<lparr>asset_name = ''BTC'', anomaly_score = Some (Num (Finite (- 9 / 2))),
       daily_return = Some (Num (Finite (1 / 64))), severity = None, z_score_abs = None\<rparr>,
      \<lparr>asset_name = ''ETH'', anomaly_score = None,
       daily_return = Some (Num (Finite (- 1 / 32))), severity = None, z_score_abs = None\<rparr>]
   = Inr
     [\<lparr>asset_name = ''BTC'', anomaly_score = Some (Num (Finite (- 9 / 2))),
       daily_return = Some (Num (Finite (1 / 64))), severity = Some ''critical'',
       z_score_abs = Some (Finite (9 / 2))\<rparr>,
      \<lparr>asset_name = ''ETH'', anomaly_score = None,
       daily_return = Some (Num (Finite (- 1 / 32))), severity = Some ''high'',
       z_score_abs = Some (Finite (25 / 8))\<rparr>]
   \<and> severity_level (severity_of (Finite (25 / 8)))
       \<le> severity_level (severity_of (Finite (9 / 2)))"
proof -
  let ?c = "\<lparr>asset_name = ''ETH'', anomaly_score = None,
       daily_return = Some (Num (Finite (- 1 / 32))), severity = Some ''high'',
       z_score_abs = Some (Finite (25 / 8))\<rparr>"
  let ?out = "[\<lparr>asset_name = ''BTC'', anomaly_score = Some (Num (Finite (- 9 / 2))),
       daily_return = Some (Num (Finite (1 / 64))), severity = Some ''critical'',
       z_score_abs = Some (Finite (9 / 2))\<rparr>, ?c]"
  have mem: "?c \<in> set ?out" by simp
  from severity_thresholds [OF classify_example mem]
  have "\<forall>z'. fle (Finite (25 / 8)) z' \<longrightarrow>
          severity_level (severity_of (Finite (25 / 8))) \<le> severity_level (severity_of z')"
    by simp
  then have "severity_level (severity_of (Finite (25 / 8)))
       \<le> severity_level (severity_of (Finite (9 / 2)))"
    by simp
  with classify_example show ?thesis by (rule conjI)
qed

text \<open>
  Claim C1 as stated fails at a NaN: the row is returned with the severity
  \<open>low\<close> and the z-score NaN, and NaN is not below 2.5.
\<close>

theorem severity_of_nan_is_low:
  "classify_anomalies
     [\<lparr>asset_name = ''BTC'', anomaly_score = Some (Num NaN), daily_return = None,
       severity = None, z_score_abs = None\<rparr>]
   = Inr [\<lparr>asset_name = ''BTC'', anomaly_score = Some (Num NaN), daily_return = None,
            severity = Some ''low'', z_score_abs = Some NaN\<rparr>]
   \<and> \<not> flt NaN (Finite (5 / 2))"
  by (simp add: classify_anomalies_def classify_anomaly_def z_score_of_def get_float_def
      severity_of_def fge_def)

section \<open>The SQL guard\<close>

lemma is_space_ascii_lower: "is_space U (ascii_lower c) = is_space U c"
  by (auto simp: is_space_def ascii_lower_def)

lemma is_ascii_dropWhile: "is_ascii s \<Longrightarrow> is_ascii (dropWhile P s)"
  unfolding is_ascii_def list_all_iff by (auto dest: set_dropWhileD)

lemma is_ascii_rev: "is_ascii (rev s) = is_ascii s"
  by (simp add: is_ascii_def list_all_iff)

lemma is_ascii_strip: "is_ascii s \<Longrightarrow> is_ascii (strip U s)"
  by (simp add: strip_def is_ascii_rev is_ascii_dropWhile)

lemma lower_strip_ascii:
  assumes "is_ascii s"
  shows "lower U (strip U s) = strip U (lower U s)"
proof -
  have sp: "is_space U \<circ> ascii_lower = is_space U"
    by (rule ext) (simp add: is_space_ascii_lower)
  have "map ascii_lower (strip U s) = strip U (map ascii_lower s)"
    by (simp add: strip_def rev_map dropWhile_map sp)
  with assms is_ascii_strip [OF assms, of U] show ?thesis
    by (simp add: lower_def)
qed

lemma startswith_append: "startswith (kw @ post) kw"
  by (induction kw) simp_all

lemma search_word_occurrence:
  assumes "kw \<noteq> []" and "\<forall>c \<in> set kw. is_word_char U c"
    and "post = [] \<or> \<not> is_word_char U (hd post)"
    and "if pre = [] then \<not> opt_word U prev else \<not> is_word_char U (last pre)"
  shows "search_word U kw prev (pre @ kw @ post)"
  using assms(4)
proof (induction pre arbitrary: prev)
  case Nil
  from assms(1) obtain k ks where kw: "kw = k # ks" by (cases kw) auto
  have first: "is_word_char U k" and lst: "is_word_char U (last kw)"
    using assms(1,2) kw by auto
  have "\<not> opt_word U (head_opt post)"
    using assms(3) by (cases post) auto
  then have "match_word_at U kw prev (kw @ post)"
    using Nil first lst assms(1) startswith_append [of kw post]
    by (simp add: match_word_at_def word_boundary_def kw)
  then show ?case by (simp add: kw)
next
  case (Cons a pre)
  have "if pre = [] then \<not> opt_word U (Some a) else \<not> is_word_char U (last pre)"
    using Cons.prems by (auto split: if_splits)
  from Cons.IH [OF this] show ?case by simp
qed

lemma standalone_word_search:
  assumes "standalone_word U kw s" and "kw \<noteq> []" and "\<forall>c \<in> set kw. is_word_char U c"
  shows "re_search_word U kw s"
proof -
  from assms(1) obtain pre post where s: "s = pre @ kw @ post"
    and pre: "pre = [] \<or> \<not> is_word_char U (last pre)"
    and post: "post = [] \<or> \<not> is_word_char U (hd post)"
    unfolding standalone_word_def by blast
  have "if pre = [] then \<not> opt_word U None else \<not> is_word_char U (last pre)"
    using pre by auto
  from search_word_occurrence [OF assms(2,3) post this]
  show ?thesis by (simp add: re_search_word_def s)
qed

lemma standalone_word_rev:
  "standalone_word U kw s \<Longrightarrow> standalone_word U (rev kw) (rev s)"
  unfolding standalone_word_def
proof (elim exE conjE)
  fix pre post
  assume s: "s = pre @ kw @ post"
    and pre: "pre = [] \<or> \<not> is_word_char U (last pre)"
    and post: "post = [] \<or> \<not> is_word_char U (hd post)"
  have "rev s = rev post @ rev kw @ rev pre" by (simp add: s)
  moreover have "rev post = [] \<or> \<not> is_word_char U (last (rev post))"
    using post by (auto simp: last_rev)
  moreover have "rev pre = [] \<or> \<not> is_word_char U (hd (rev pre))"
    using pre by (auto simp: hd_rev)
  ultimately show "\<exists>pre' post'. rev s = pre' @ rev kw @ post'
      \<and> (pre' = [] \<or> \<not> is_word_char U (last pre'))
      \<and> (post' = [] \<or> \<not> is_word_char U (hd post'))"
    by blast
qed

lemma standalone_word_lstrip:
  assumes "standalone_word U kw s" and "kw \<noteq> []" and "\<not> is_space U (hd kw)"
  shows "standalone_word U kw (dropWhile (is_space U) s)"
proof -
  from assms(1) obtain pre post where s: "s = pre @ kw @ post"
    and pre: "pre = [] \<or> \<not> is_word_char U (last pre)"
    and post: "post = [] \<or> \<not> is_word_char U (hd post)"
    unfolding standalone_word_def by blast
  have kwpost: "dropWhile (is_space U) (kw @ post) = kw @ post"
    using assms(2,3) by (cases kw) auto
  show ?thesis
  proof (cases "\<forall>c \<in> set pre. is_space U c")
    case True
    then have "dropWhile (is_space U) (pre @ (kw @ post)) = dropWhile (is_space U) (kw @ post)"
      by (intro dropWhile_append2) simp
    then have "dropWhile (is_space U) s = [] @ kw @ post"
      by (simp add: s kwpost)
    with post show ?thesis unfolding standalone_word_def by blast
  next
    case False
    let ?pre = "dropWhile (is_space U) pre"
    from False have ne: "?pre \<noteq> []" by (simp add: dropWhile_eq_Nil_conv)
    from False have eq: "dropWhile (is_space U) s = ?pre @ kw @ post"
      by (auto simp: s dropWhile_append)
    have "pre = takeWhile (is_space U) pre @ ?pre" by simp
    with ne have "last pre = last ?pre" by (metis last_appendR)
    with pre ne False have "\<not> is_word_char U (last ?pre)" by auto
    with eq post show ?thesis unfolding standalone_word_def by blast
  qed
qed

lemma standalone_word_strip:
  assumes "standalone_word U kw s" and "kw \<noteq> []"
    and "\<not> is_space U (hd kw)" and "\<not> is_space U (last kw)"
  shows "standalone_word U kw (strip U s)"
proof -
  have l: "\<not> is_space U (hd (rev kw))"
    using assms(2,4) by (simp add: hd_rev)
  have "standalone_word U kw (dropWhile (is_space U) s)"
    by (rule standalone_word_lstrip [OF assms(1,2,3)])
  then have "standalone_word U (rev kw) (rev (dropWhile (is_space U) s))"
    by (rule standalone_word_rev)
  then have "standalone_word U (rev kw)
               (dropWhile (is_space U) (rev (dropWhile (is_space U) s)))"
    using assms(2) l by (intro standalone_word_lstrip) auto
  then have "standalone_word U (rev (rev kw)) (strip U s)"
    unfolding strip_def by (rule standalone_word_rev)
  then show ?thesis by simp
qed

lemma dangerous_keywords_letters:
  "kw \<in> set dangerous_keywords \<Longrightarrow> kw \<noteq> [] \<and> (\<forall>c \<in> set kw. 97 \<le> c \<and> c \<le> 122)"
  by (auto simp: dangerous_keywords_def ustr_def)

lemma letter_is_word: "97 \<le> c \<Longrightarrow> c \<le> 122 \<Longrightarrow> is_word_char U c \<and> \<not> is_space U c"
  by (simp add: is_word_char_def is_space_def)

lemma validate_sql_keyword:
  assumes "kw \<in> set dangerous_keywords" and "re_search_word U kw (strip U (lower U stmt))"
  shows "fst (validate_sql U parse stmt) = False"
proof -
  have "find (\<lambda>keyword. re_search_word U keyword (strip U (lower U stmt))) dangerous_keywords
          \<noteq> None"
    using assms by (auto simp: find_None_iff)
  then show ?thesis by (auto simp: validate_sql_def Let_def)
qed

lemma validate_sql_not_select:
  assumes "\<not> startswith (strip U (lower U stmt)) (ustr ''select'')"
  shows "fst (validate_sql U parse stmt) = False"
  using assms by (auto simp: validate_sql_def Let_def split: option.splits)

text \<open>
  Claim C2. A statement whose lower-cased text contains one of the denylisted keywords
  as a standalone word anywhere is rejected by \<open>_validate_sql\<close>; and so is a statement
  whose lower-cased and trimmed text does not begin with \<open>select\<close>. Word characters,
  white space and lower-casing are those of Python, for every Unicode database. For
  an ASCII statement, trimming before lower-casing gives the same.
\<close>

theorem sql_guard_rejects:
  "(kw \<in> set dangerous_keywords \<and> standalone_word U kw (lower U stmt)
      \<longrightarrow> fst (validate_sql U parse stmt) = False)
   \<and> (\<not> startswith (strip U (lower U stmt)) (ustr ''select'')
      \<longrightarrow> fst (validate_sql U parse stmt) = False)
   \<and> (is_ascii stmt \<and> \<not> startswith (lower U (strip U stmt)) (ustr ''select'')
      \<longrightarrow> fst (validate_sql U parse stmt) = False)"
proof (intro conjI impI)
  assume a: "kw \<in> set dangerous_keywords \<and> standalone_word U kw (lower U stmt)"
  with dangerous_keywords_letters [of kw]
  have ne: "kw \<noteq> []" and letters: "\<forall>c \<in> set kw. 97 \<le> c \<and> c \<le> 122" by auto
  from letters have w: "\<forall>c \<in> set kw. is_word_char U c"
    by (auto dest: letter_is_word [of _ U])
  from ne letters have h: "\<not> is_space U (hd kw)" and l: "\<not> is_space U (last kw)"
    by (auto dest: letter_is_word [of _ U])
  from a have "standalone_word U kw (strip U (lower U stmt))"
    by (intro standalone_word_strip ne h l) simp
  then have "re_search_word U kw (strip U (lower U stmt))"
    by (rule standalone_word_search [OF _ ne w])
  with a show "fst (validate_sql U parse stmt) = False"
    by (intro validate_sql_keyword [of kw]) auto
next
  assume "\<not> startswith (strip U (lower U stmt)) (ustr ''select'')"
  then show "fst (validate_sql U parse stmt) = False"
    by (rule validate_sql_not_select)
next
  assume "is_ascii stmt \<and> \<not> startswith (lower U (strip U stmt)) (ustr ''select'')"
  then have asc: "is_ascii stmt"
    and ns: "\<not> startswith (lower U (strip U stmt)) (ustr ''select'')"
    by simp_all
  from ns have "\<not> startswith (strip U (lower U stmt)) (ustr ''select'')"
    by (simp add: lower_strip_ascii [OF asc])
  then show "fst (validate_sql U parse stmt) = False"
    by (rule validate_sql_not_select)
qed

theorem sql_guard_rejects_witness:
  "ustr ''drop'' \<in> set dangerous_keywords
   \<and> standalone_word \<lparr>uni_alnum = (\<lambda>c. c = 233), uni_space = (\<lambda>c. c = 160),
        uni_lower = (\<lambda>s. s), uni_upper = (\<lambda>s. s)\<rparr> (ustr ''drop'')
       (lower \<lparr>uni_alnum = (\<lambda>c. c = 233), uni_space = (\<lambda>c. c = 160),
          uni_lower = (\<lambda>s. s), uni_upper = (\<lambda>s. s)\<rparr> (ustr ''SELECT 1; DROP TABLE t''))
   \<and> fst (validate_sql \<lparr>uni_alnum = (\<lambda>c. c = 233), uni_space = (\<lambda>c. c = 160),
        uni_lower = (\<lambda>s. s), uni_upper = (\<lambda>s. s)\<rparr> (\<lambda>s. Inr [()])
        (ustr ''SELECT 1; DROP TABLE t'')) = False
   \<and> \<not> startswith (strip \<lparr>uni_alnum = (\<lambda>c. c = 233), uni_space = (\<lambda>c. c = 160),
        uni_lower = (\<lambda>s. s), uni_upper = (\<lambda>s. s)\<rparr>
       (lower \<lparr>uni_alnum = (\<lambda>c. c = 233), uni_space = (\<lambda>c. c = 160),
          uni_lower = (\<lambda>s. s), uni_upper = (\<lambda>s. s)\<rparr> (ustr '' Show tables '')))
       (ustr ''select'')
   \<and> fst (validate_sql \<lparr>uni_alnum = (\<lambda>c. c = 233), uni_space = (\<lambda>c. c = 160),
        uni_lower = (\<lambda>s. s), uni_upper = (\<lambda>s. s)\<rparr> (\<lambda>s. Inr [()])
        (ustr '' Show tables '')) = False"
proof -
  let ?U = "\<lparr>uni_alnum = (\<lambda>c. c = 233), uni_space = (\<lambda>c. c = 160),
        uni_lower = (\<lambda>s. s), uni_upper = (\<lambda>s. s)\<rparr>"
  have kw: "ustr ''drop'' \<in> set dangerous_keywords"
    by (simp add: dangerous_keywords_def)
  have low: "lower ?U (ustr ''SELECT 1; DROP TABLE t'')
               = ustr ''select 1; '' @ ustr ''drop'' @ ustr '' table t''"
    by (simp add: lower_def is_ascii_def ustr_def ascii_lower_def)
  have pre: "ustr ''select 1; '' = [] \<or> \<not> is_word_char ?U (last (ustr ''select 1; ''))"
    by (simp add: is_word_char_def ustr_def)
  have post: "ustr '' table t'' = [] \<or> \<not> is_word_char ?U (hd (ustr '' table t''))"
    by (simp add: is_word_char_def ustr_def)
  have occ: "standalone_word ?U (ustr ''drop'') (lower ?U (ustr ''SELECT 1; DROP TABLE t''))"
    unfolding standalone_word_def
    by (rule exI [of _ "ustr ''select 1; ''"], rule exI [of _ "ustr '' table t''"])
      (intro conjI low pre post)
  have ns: "\<not> startswith (strip ?U (lower ?U (ustr '' Show tables ''))) (ustr ''select'')"
    by (simp add: strip_def is_space_def lower_def is_ascii_def ustr_def ascii_lower_def)
  have r1: "fst (validate_sql ?U (\<lambda>s. Inr [()]) (ustr ''SELECT 1; DROP TABLE t'')) = False"
  proof -
    have "ustr ''drop'' \<in> set dangerous_keywords
        \<and> standalone_word ?U (ustr ''drop'') (lower ?U (ustr ''SELECT 1; DROP TABLE t''))
      \<longrightarrow> fst (validate_sql ?U (\<lambda>s. Inr [()]) (ustr ''SELECT 1; DROP TABLE t'')) = False"
      by (rule conjunct1
          [OF sql_guard_rejects [of "ustr ''drop''" ?U "ustr ''SELECT 1; DROP TABLE t''"
              "\<lambda>s. Inr [()]"]])
    then show ?thesis using kw occ by (rule mp [OF _ conjI])
  qed
  have r2: "fst (validate_sql ?U (\<lambda>s. Inr [()]) (ustr '' Show tables '')) = False"
  proof -
    have "\<not> startswith (strip ?U (lower ?U (ustr '' Show tables ''))) (ustr ''select'')
      \<longrightarrow> fst (validate_sql ?U (\<lambda>s. Inr [()]) (ustr '' Show tables '')) = False"
      by (rule conjunct1 [OF conjunct2
          [OF sql_guard_rejects [of "ustr ''drop''" ?U "ustr '' Show tables ''"
              "\<lambda>s. Inr [()]"]]])
    then show ?thesis using ns by (rule mp)
  qed
  show ?thesis
    by (intro conjI kw occ r1 ns r2)
qed

text \<open>
  A letter outside ASCII next to a keyword makes the keyword part of a longer word, and
  a no-break space before \<open>select\<close> is trimmed: with \<open>U+00E9\<close> a letter and \<open>U+00A0\<close> a
  space, as in Python, both statements pass the guard.
\<close>

lemma validate_sql_latin1_examples:
  "validate_sql \<lparr>uni_alnum = (\<lambda>c. c = 233), uni_space = (\<lambda>c. c = 160),
        uni_lower = (\<lambda>s. s), uni_upper = (\<lambda>s. s)\<rparr> (\<lambda>s. Inr [()])
      (ustr ''select '' @ [233] @ ustr ''drop'') = (True, None)"
  "validate_sql \<lparr>uni_alnum = (\<lambda>c. c = 233), uni_space = (\<lambda>c. c = 160),
        uni_lower = (\<lambda>s. s), uni_upper = (\<lambda>s. s)\<rparr> (\<lambda>s. Inr [()])
      ([160] @ ustr ''select 1'') = (True, None)"
  by (simp_all add: validate_sql_def strip_def lower_def is_ascii_def ustr_def is_space_def
      re_search_word_def dangerous_keywords_def match_word_at_def word_boundary_def
      is_word_char_def)

section \<open>Asset extraction\<close>

text \<open>
  Claim C3, evaluated on the code. For the query
  \<open>"Compare Bitcoin and Ethereum performance"\<close>, lower-cased by the caller,
  \<open>_extract_assets\<close> finds the aliases \<open>btc\<close> and \<open>eth\<close>, and its ticker pattern, which
  runs over the upper-cased text, also matches the word \<open>and\<close>: the result is the set
  of the three, not \<open>{btc, eth}\<close>.
\<close>

theorem extract_assets_compare:
  "set (extract_assets U (lower U (ustr ''Compare Bitcoin and Ethereum performance'')))
     = {ustr ''btc'', ustr ''eth'', ustr ''and''}
   \<and> ustr ''and'' \<notin> {ustr ''btc'', ustr ''eth''}"
proof -
  have "extract_assets U (lower U (ustr ''Compare Bitcoin and Ethereum performance''))
          = [ustr ''btc'', ustr ''eth'', ustr ''and'']"
    by (simp add: extract_assets_def lower_def upper_def is_ascii_def ustr_def
        ascii_lower_def ascii_upper_def asset_keywords_def match_ticker_def
        word_boundary_def is_word_char_def is_upper_def Let_def)
  then have "set (extract_assets U
                    (lower U (ustr ''Compare Bitcoin and Ethereum performance'')))
          = {ustr ''btc'', ustr ''eth'', ustr ''and''}"
    by simp
  moreover have "ustr ''and'' \<notin> {ustr ''btc'', ustr ''eth''}"
    by (simp add: ustr_def)
  ultimately show ?thesis by (rule conjI)
qed

section \<open>Similarity matches\<close>

text \<open>
  Claim C4, evaluated on the code. For a distance of 1.5 \<open>_format_results\<close> gives the
  similarity \<open>1 - 1.5 = -0.5\<close> without clamping it: the value is below 0, where the
  clamp into \<open>[0, 1]\<close> gives 0, and the relevance is \<open>low\<close>.
\<close>

theorem similarity_not_clamped:
  "format_results \<lparr>res_ids = [[''a'']], res_documents = [[''doc'']],
       res_metadatas = [[None]], res_distances = [[Finite (3 / 2)]]\<rparr>
     = Inr [\<lparr>match_id = ''a'', description = ''doc'', metadata = None,
             similarity = Finite (- 1 / 2), relevance = ''low''\<rparr>]
   \<and> \<not> fle (Finite 0) (Finite (- 1 / 2))
   \<and> clamp01 (1 - 3 / 2) = 0
   \<and> (- 1 / 2 :: real) \<noteq> clamp01 (1 - 3 / 2)"
proof -
  have rd: "round_double (- (1 / 2)) = Finite (- (1 / 2))"
    using round_double_exact [OF is_double_minus_half] by simp
  show ?thesis
    by (simp add: format_results_def format_row_def bind_exn_def py_index_def rd fgt_def
        lit_0_8_def lit_0_6_def clamp01_def)
qed

text \<open>
  The subtraction rounds. For the distance \<open>0.19999999999999998\<close> the exact difference
  is above \<open>0.8\<close>, the similarity is the double \<open>0.8\<close> and the relevance is \<open>medium\<close>.
\<close>

lemma is_double_near_0_2: "is_double (7205759403792793 / 36028797018963968)"
  using is_double_frac [of 7205759403792793 55] by simp

lemma format_results_rounds:
  "format_results \<lparr>res_ids = [[''a'']], res_documents = [[''doc'']],
       res_metadatas = [[None]],
       res_distances = [[Finite (7205759403792793 / 36028797018963968)]]\<rparr>
     = Inr [\<lparr>match_id = ''a'', description = ''doc'', metadata = None,
             similarity = lit_0_8, relevance = ''medium''\<rparr>]
   \<and> (4 / 5 :: real) < 1 - 7205759403792793 / 36028797018963968"
  using round_double_near_0_8
  by (simp add: format_results_def format_row_def bind_exn_def py_index_def fgt_def
      lit_0_8_def lit_0_6_def)

section \<open>Search with a minimum severity\<close>

















section \<open>Query results\<close>

text \<open>
  Claim C9. In every dict that \<open>process_query\<close> returns, \<open>row_count\<close> is the length
  of \<open>results\<close>; both keys are present exactly in the successful result.
\<close>

theorem row_count_is_length:
  "row_count (process_query U classify template schema generate_sql parse execute_query
                elapsed q use_ai)
     = map_option length
         (results (process_query U classify template schema generate_sql parse execute_query
                     elapsed q use_ai))
   \<and> (success (process_query U classify template schema generate_sql parse execute_query
                 elapsed q use_ai)
        \<longleftrightarrow> results (process_query U classify template schema generate_sql parse
                        execute_query elapsed q use_ai) \<noteq> None)"
  by (simp add: process_query_def Let_def split: prod.splits option.splits sum.splits)

lemma process_query_example:
  "results (process_query \<lparr>uni_alnum = (\<lambda>c. c = 233), uni_space = (\<lambda>c. c = 160),
        uni_lower = (\<lambda>s. s), uni_upper = (\<lambda>s. s)\<rparr>
       (\<lambda>q. (''data_retrieval'', 9 / 10)) (\<lambda>q i. Some (ustr ''select 1''))
       (\<lambda>q. []) (\<lambda>q s. None) (\<lambda>s. Inr [()]) (\<lambda>s. Inr [10, 20 :: nat]) 0 (ustr ''one'') True)
     = Some [10, 20]"
  by (simp add: process_query_def truthy_def validate_sql_def strip_def lower_def
      is_ascii_def ustr_def ascii_lower_def is_space_def re_search_word_def
      dangerous_keywords_def match_word_at_def word_boundary_def is_word_char_def)

theorem row_count_is_length_witness:
  "row_count (process_query \<lparr>uni_alnum = (\<lambda>c. c = 233), uni_space = (\<lambda>c. c = 160),
        uni_lower = (\<lambda>s. s), uni_upper = (\<lambda>s. s)\<rparr>
       (\<lambda>q. (''data_retrieval'', 9 / 10)) (\<lambda>q i. Some (ustr ''select 1''))
       (\<lambda>q. []) (\<lambda>q s. None) (\<lambda>s. Inr [()]) (\<lambda>s. Inr [10, 20 :: nat]) 0 (ustr ''one'') True)
     = Some 2"
  using row_count_is_length [of "\<lparr>uni_alnum = (\<lambda>c. c = 233), uni_space = (\<lambda>c. c = 160),
        uni_lower = (\<lambda>s. s), uni_upper = (\<lambda>s. s)\<rparr>"
      "\<lambda>q. (''data_retrieval'', 9 / 10)" "\<lambda>q i. Some (ustr ''select 1'')"
      "\<lambda>q. []" "\<lambda>q s. None" "\<lambda>s. Inr [()]" "\<lambda>s. Inr [10, 20 :: nat]" 0 "ustr ''one''" True]
  by (simp add: process_query_example)

section \<open>Embedding fallback\<close>



section \<open>Rate limit and cache of the language model client\<close>

lemma check_cache_counters:
  "requests_today (snd (check_cache now st k)) = requests_today st
   \<and> last_reset_date (snd (check_cache now st k)) = last_reset_date st
   \<and> total_requests_month (snd (check_cache now st k)) = total_requests_month st"
  by (simp add: check_cache_def split: option.splits prod.splits)

lemma check_cache_fresh:
  "truthy (fst (check_cache now st k)) \<longleftrightarrow> cache_fresh now st k"
  by (auto simp: check_cache_def cache_fresh_def truthy_def split: option.splits prod.splits)

lemma check_cache_hit:
  "cache_fresh now st k \<Longrightarrow> check_cache now st k = (map_option fst (cache st k), st)"
  by (auto simp: check_cache_def cache_fresh_def split: option.splits prod.splits)

lemma check_rate_limits_daily:
  assumes "hf_requests_per_day cfg \<le> requests_today st" and "date_of now = last_reset_date st"
  shows "check_rate_limits cfg now st
           = ((False, Some (Daily_limit_reached (hf_requests_per_day cfg))), st)"
  using assms by (simp add: check_rate_limits_def)

lemma generate_text_cache_hit:
  assumes "cache_fresh (now_cache env) st (get_cache_key cfg prompt n)"
  shows "generate_text cfg env st prompt n True
           = \<lparr>generated = map_option fst (cache st (get_cache_key cfg prompt n)),
              api = st, posts = 0, refused = None\<rparr>"
  using assms check_cache_fresh [of "now_cache env" st "get_cache_key cfg prompt n"]
  by (simp add: generate_text_def check_cache_hit)

lemma generate_text_no_hit:
  assumes "\<not> (use_cache \<and> cache_fresh (now_cache env) st (get_cache_key cfg prompt n))"
  shows "generate_text cfg env st prompt n use_cache
           = (let st1 = (if use_cache
                         then snd (check_cache (now_cache env) st (get_cache_key cfg prompt n))
                         else st);
                  lim = check_rate_limits cfg (now_limits env) st1
              in if \<not> fst (fst lim)
                 then \<lparr>generated = None, api = snd lim, posts = 0, refused = snd (fst lim)\<rparr>
                 else send_request env (snd lim) (get_cache_key cfg prompt n) use_cache)"
  using assms check_cache_fresh [of "now_cache env" st "get_cache_key cfg prompt n"]
  by (cases use_cache) (auto simp: generate_text_def Let_def truthy_def split: prod.splits)

text \<open>
  Claim C6, as the code has it. When \<open>requests_today\<close> has reached the daily limit
  and the date has not changed, \<open>generate_text\<close> makes no network request. The cache
  is looked up before the limits: a call with caching, for which the cache holds a
  fresh entry, returns the cached text; every other call returns \<open>None\<close>, and the
  reason of the refusal is that the daily limit is reached.
\<close>

theorem daily_limit_refusal:
  assumes "hf_requests_per_day cfg \<le> requests_today st"
    and "date_of (now_limits env) = last_reset_date st"
    and "out = generate_text cfg env st prompt n use_cache"
  shows "posts out = 0
       \<and> (if use_cache \<and> cache_fresh (now_cache env) st (get_cache_key cfg prompt n)
          then generated out = map_option fst (cache st (get_cache_key cfg prompt n))
             \<and> generated out \<noteq> None
          else generated out = None
             \<and> refused out = Some (Daily_limit_reached (hf_requests_per_day cfg)))"
proof (cases "use_cache \<and> cache_fresh (now_cache env) st (get_cache_key cfg prompt n)")
  case True
  then have "out = \<lparr>generated = map_option fst (cache st (get_cache_key cfg prompt n)),
              api = st, posts = 0, refused = None\<rparr>"
    using generate_text_cache_hit [of env st cfg prompt n] assms(3) by simp
  moreover from True have "cache st (get_cache_key cfg prompt n) \<noteq> None"
    by (auto simp: cache_fresh_def split: option.splits)
  ultimately show ?thesis using True by simp
next
  case False
  let ?st1 = "if use_cache
              then snd (check_cache (now_cache env) st (get_cache_key cfg prompt n)) else st"
  have "hf_requests_per_day cfg \<le> requests_today ?st1"
    and "date_of (now_limits env) = last_reset_date ?st1"
    using assms(1,2) by (simp_all add: check_cache_counters)
  then have "check_rate_limits cfg (now_limits env) ?st1
           = ((False, Some (Daily_limit_reached (hf_requests_per_day cfg))), ?st1)"
    by (rule check_rate_limits_daily)
  then have "posts out = 0 \<and> generated out = None
      \<and> refused out = Some (Daily_limit_reached (hf_requests_per_day cfg))"
    by (simp add: assms(3) generate_text_no_hit [OF False] Let_def)
  then show ?thesis
    unfolding if_not_P [OF False] by simp
qed

theorem daily_limit_refusal_witness:
  "hf_requests_per_day config \<le> requests_today \<lparr>requests_today = 1000, last_reset_date = 0,
       total_requests_month = 1000, last_request_time = Some 5, cache = Map.empty\<rparr>
   \<and> date_of (now_limits \<lparr>now_cache = 10, now_limits = 11, post_first = Timeout,
       post_retry = Timeout, now_update = 12, now_store = 13\<rparr>) = 0
   \<and> posts (generate_text config \<lparr>now_cache = 10, now_limits = 11, post_first = Timeout,
       post_retry = Timeout, now_update = 12, now_store = 13\<rparr>
       \<lparr>requests_today = 1000, last_reset_date = 0,
       total_requests_month = 1000, last_request_time = Some 5, cache = Map.empty\<rparr>
       ''hello'' 500 True) = 0
   \<and> generated (generate_text config \<lparr>now_cache = 10, now_limits = 11, post_first = Timeout,
       post_retry = Timeout, now_update = 12, now_store = 13\<rparr>
       \<lparr>requests_today = 1000, last_reset_date = 0,
       total_requests_month = 1000, last_request_time = Some 5, cache = Map.empty\<rparr>
       ''hello'' 500 True) = None
   \<and> refused (generate_text config \<lparr>now_cache = 10, now_limits = 11, post_first = Timeout,
       post_retry = Timeout, now_update = 12, now_store = 13\<rparr>
       \<lparr>requests_today = 1000, last_reset_date = 0,
       total_requests_month = 1000, last_request_time = Some 5, cache = Map.empty\<rparr>
       ''hello'' 500 True) = Some (Daily_limit_reached 1000)"
proof -
  let ?st = "\<lparr>requests_today = 1000, last_reset_date = 0,
       total_requests_month = 1000, last_request_time = Some 5, cache = Map.empty\<rparr>"
  let ?env = "\<lparr>now_cache = 10, now_limits = 11, post_first = Timeout,
       post_retry = Timeout, now_update = 12, now_store = 13\<rparr>"
  have lim: "hf_requests_per_day config \<le> requests_today ?st"
    by (simp add: config_def)
  have day: "date_of (now_limits ?env) = last_reset_date ?st"
    by (simp add: date_of_def)
  have miss: "\<not> cache_fresh (now_cache ?env) ?st (get_cache_key config ''hello'' 500)"
    by (simp add: cache_fresh_def)
  from daily_limit_refusal [OF lim day refl, of "''hello''" 500 True] miss
  have "posts (generate_text config ?env ?st ''hello'' 500 True) = 0
      \<and> generated (generate_text config ?env ?st ''hello'' 500 True) = None
      \<and> refused (generate_text config ?env ?st ''hello'' 500 True)
          = Some (Daily_limit_reached (hf_requests_per_day config))"
    by simp
  with lim day show ?thesis by (simp add: config_def)
qed

text \<open>
  Claim C6 as stated fails: with the daily limit reached and a fresh cache entry for
  the prompt, the call returns the cached text, not \<open>None\<close>.
\<close>

theorem daily_limit_cached_answer:
  "hf_requests_per_day config \<le> requests_today \<lparr>requests_today = 1000, last_reset_date = 0,
       total_requests_month = 1000, last_request_time = Some 5,
       cache = [(''hello'', 500, 1 / 10) \<mapsto> (''hi there'', 5)]\<rparr>
   \<and> date_of (now_limits \<lparr>now_cache = 10, now_limits = 11, post_first = Timeout,
       post_retry = Timeout, now_update = 12, now_store = 13\<rparr>) = 0
   \<and> generated (generate_text config \<lparr>now_cache = 10, now_limits = 11, post_first = Timeout,
       post_retry = Timeout, now_update = 12, now_store = 13\<rparr>
       \<lparr>requests_today = 1000, last_reset_date = 0,
       total_requests_month = 1000, last_request_time = Some 5,
       cache = [(''hello'', 500, 1 / 10) \<mapsto> (''hi there'', 5)]\<rparr>
       ''hello'' 500 True) = Some ''hi there''"
  by (simp add: config_def date_of_def generate_text_def get_cache_key_def check_cache_def
      cache_ttl_def truthy_def)

lemma finish_request_generated:
  assumes "generated (finish_request env st k uc n status body) = Some t"
  shows "posts (finish_request env st k uc n status body) = n
       \<and> (uc \<and> t \<noteq> [] \<longrightarrow>
            cache (api (finish_request env st k uc n status body)) k = Some (t, now_store env))"
  using assms
  by (auto simp: finish_request_def Let_def
      split: if_splits option.splits json_value.splits list.splits gen_item.splits)

lemma send_request_generated:
  assumes "generated (send_request env st k uc) = Some t"
  shows "posts (send_request env st k uc) = first_call_posts env
       \<and> (uc \<and> t \<noteq> [] \<longrightarrow>
            cache (api (send_request env st k uc)) k = Some (t, now_store env))"
proof (cases "post_first env")
  case (Response status body)
  show ?thesis
  proof (cases "status = 503")
    case False
    with Response assms finish_request_generated [of env st k uc 1 status body t]
    show ?thesis by (simp add: send_request_def first_call_posts_def)
  next
    case True
    show ?thesis
    proof (cases "post_retry env")
      case (Response status' body')
      with True \<open>post_first env = Response status body\<close> assms
        finish_request_generated [of env st k uc 2 status' body' t]
      show ?thesis by (simp add: send_request_def first_call_posts_def)
    qed (use True \<open>post_first env = Response status body\<close> assms in
          \<open>simp_all add: send_request_def\<close>)
  qed
qed (use assms in \<open>simp_all add: send_request_def\<close>)

lemma generate_text_sent:
  assumes "\<not> cache_fresh (now_cache env) st (get_cache_key cfg prompt n)"
    and "generated (generate_text cfg env st prompt n True) = Some t"
  shows "posts (generate_text cfg env st prompt n True) = first_call_posts env
       \<and> (t \<noteq> [] \<longrightarrow> cache (api (generate_text cfg env st prompt n True))
                          (get_cache_key cfg prompt n) = Some (t, now_store env))"
proof -
  let ?k = "get_cache_key cfg prompt n"
  let ?lim = "check_rate_limits cfg (now_limits env) (snd (check_cache (now_cache env) st ?k))"
  have nh: "\<not> (True \<and> cache_fresh (now_cache env) st ?k)" using assms(1) by simp
  have eq: "generate_text cfg env st prompt n True
          = (if \<not> fst (fst ?lim)
             then \<lparr>generated = None, api = snd ?lim, posts = 0, refused = snd (fst ?lim)\<rparr>
             else send_request env (snd ?lim) ?k True)"
    by (simp add: generate_text_no_hit [OF nh] Let_def)
  with assms(2) have sent: "generate_text cfg env st prompt n True
          = send_request env (snd ?lim) ?k True"
    by (simp split: if_splits)
  with assms(2) have "generated (send_request env (snd ?lim) ?k True) = Some t" by simp
  from send_request_generated [OF this] sent show ?thesis by simp
qed

lemma generate_text_leaves_entry:
  assumes "generated (generate_text cfg env st prompt n True) = Some t" and "t \<noteq> []"
  shows "\<exists>tc. cache (api (generate_text cfg env st prompt n True))
                 (get_cache_key cfg prompt n) = Some (t, tc)"
proof (cases "cache_fresh (now_cache env) st (get_cache_key cfg prompt n)")
  case True
  from generate_text_cache_hit [OF True] assms(1)
  show ?thesis by auto
next
  case False
  from generate_text_sent [OF False assms(1)] assms(2) show ?thesis by blast
qed

text \<open>
  Claim C7, as the code has it. When a first call with caching returns a text that is
  not empty, and a second call with the same prompt and length checks the cache less
  than the time to live after the entry was written, the second call returns the
  same text and makes no network request. The two calls together make as many
  requests as the first: none when the first was itself served from the cache, two
  when its first request was answered with a 503 and repeated, and exactly one
  otherwise.
\<close>

theorem second_call_served_from_cache:
  assumes "out1 = generate_text cfg env1 st prompt n True"
    and "generated out1 = Some t" and "t \<noteq> []"
    and "out2 = generate_text cfg env2 (api out1) prompt n True"
    and "\<forall>d tc. cache (api out1) (get_cache_key cfg prompt n) = Some (d, tc)
            \<longrightarrow> now_cache env2 - tc < cache_ttl"
  shows "generated out2 = Some t \<and> posts out2 = 0
       \<and> posts out1 + posts out2
           = (if cache_fresh (now_cache env1) st (get_cache_key cfg prompt n) then 0
              else first_call_posts env1)
       \<and> (\<not> cache_fresh (now_cache env1) st (get_cache_key cfg prompt n)
            \<and> (\<forall>body. post_first env1 \<noteq> Response 503 body)
          \<longrightarrow> posts out1 + posts out2 = 1)"
proof -
  let ?k = "get_cache_key cfg prompt n"
  from generate_text_leaves_entry [of cfg env1 st prompt n t] assms(1,2,3)
  obtain tc where entry: "cache (api out1) ?k = Some (t, tc)" by auto
  with assms(5) have "now_cache env2 - tc < cache_ttl" by blast
  with entry assms(3) have fresh: "cache_fresh (now_cache env2) (api out1) ?k"
    by (simp add: cache_fresh_def)
  from generate_text_cache_hit [OF fresh] entry assms(4)
  have g2: "generated out2 = Some t" and p2: "posts out2 = 0" by simp_all
  have p1: "posts out1 = (if cache_fresh (now_cache env1) st ?k then 0
              else first_call_posts env1)"
  proof (cases "cache_fresh (now_cache env1) st ?k")
    case True
    from generate_text_cache_hit [OF True] assms(1) True show ?thesis by simp
  next
    case False
    from generate_text_sent [OF False] assms(1,2) False show ?thesis by simp
  qed
  have one: "(\<forall>body. post_first env1 \<noteq> Response 503 body) \<Longrightarrow> first_call_posts env1 = 1"
    by (cases "post_first env1") (auto simp: first_call_posts_def)
  from g2 p2 p1 one show ?thesis by simp
qed

lemma first_call_example:
  "generate_text config
     \<lparr>now_cache = 10, now_limits = 11,
      post_first = Response 200 (Some (Json_list [Item_dict (Some ''ok'')])),
      post_retry = Timeout, now_update = 12, now_store = 13\<rparr>
     (init_hf_api 0) ''hello'' 500 True
   = \<lparr>generated = Some ''ok'',
      api = \<lparr>requests_today = 1, last_reset_date = 0, total_requests_month = 1,
             last_request_time = Some 12,
             cache = [(''hello'', 500, 1 / 10) \<mapsto> (''ok'', 13)]\<rparr>,
      posts = 1, refused = None\<rparr>"
  by (simp add: generate_text_def config_def init_hf_api_def get_cache_key_def check_cache_def
      check_rate_limits_def date_of_def send_request_def finish_request_def truthy_def Let_def)

lemma retry_call_example:
  "generate_text config
     \<lparr>now_cache = 10, now_limits = 11, post_first = Response 503 None,
      post_retry = Response 200 (Some (Json_list [Item_dict (Some ''ok'')])),
      now_update = 12, now_store = 13\<rparr>
     (init_hf_api 0) ''hello'' 500 True
   = \<lparr>generated = Some ''ok'',
      api = \<lparr>requests_today = 1, last_reset_date = 0, total_requests_month = 1,
             last_request_time = Some 12,
             cache = [(''hello'', 500, 1 / 10) \<mapsto> (''ok'', 13)]\<rparr>,
      posts = 2, refused = None\<rparr>"
  by (simp add: generate_text_def config_def init_hf_api_def get_cache_key_def check_cache_def
      check_rate_limits_def date_of_def send_request_def finish_request_def truthy_def Let_def)

lemma second_call_example:
  "generate_text config
     \<lparr>now_cache = 20, now_limits = 21, post_first = Timeout, post_retry = Timeout,
      now_update = 22, now_store = 23\<rparr>
     \<lparr>requests_today = 1, last_reset_date = 0, total_requests_month = 1,
      last_request_time = Some 12,
      cache = [(''hello'', 500, 1 / 10) \<mapsto> (''ok'', 13)]\<rparr> ''hello'' 500 True
   = \<lparr>generated = Some ''ok'',
      api = \<lparr>requests_today = 1, last_reset_date = 0, total_requests_month = 1,
             last_request_time = Some 12,
             cache = [(''hello'', 500, 1 / 10) \<mapsto> (''ok'', 13)]\<rparr>,
      posts = 0, refused = None\<rparr>"
  by (simp add: generate_text_def config_def get_cache_key_def check_cache_def cache_ttl_def
      truthy_def)

text \<open>
  Claim C7 as stated fails: when the first request of the first call is answered with
  a 503, the call repeats it and succeeds, and the two calls make two network
  requests.
\<close>

theorem retry_makes_two_requests:
  "generated (generate_text config
     \<lparr>now_cache = 10, now_limits = 11, post_first = Response 503 None,
      post_retry = Response 200 (Some (Json_list [Item_dict (Some ''ok'')])),
      now_update = 12, now_store = 13\<rparr>
     (init_hf_api 0) ''hello'' 500 True) = Some ''ok''
   \<and> generated (generate_text config
     \<lparr>now_cache = 20, now_limits = 21, post_first = Timeout, post_retry = Timeout,
      now_update = 22, now_store = 23\<rparr>
     (api (generate_text config
       \<lparr>now_cache = 10, now_limits = 11, post_first = Response 503 None,
        post_retry = Response 200 (Some (Json_list [Item_dict (Some ''ok'')])),
        now_update = 12, now_store = 13\<rparr>
       (init_hf_api 0) ''hello'' 500 True)) ''hello'' 500 True) = Some ''ok''
   \<and> posts (generate_text config
     \<lparr>now_cache = 10, now_limits = 11, post_first = Response 503 None,
      post_retry = Response 200 (Some (Json_list [Item_dict (Some ''ok'')])),
      now_update = 12, now_store = 13\<rparr>
     (init_hf_api 0) ''hello'' 500 True)
     + posts (generate_text config
     \<lparr>now_cache = 20, now_limits = 21, post_first = Timeout, post_retry = Timeout,
      now_update = 22, now_store = 23\<rparr>
     (api (generate_text config
       \<lparr>now_cache = 10, now_limits = 11, post_first = Response 503 None,
        post_retry = Response 200 (Some (Json_list [Item_dict (Some ''ok'')])),
        now_update = 12, now_store = 13\<rparr>
       (init_hf_api 0) ''hello'' 500 True)) ''hello'' 500 True) = 2"
  by (simp add: retry_call_example second_call_example)

theorem second_call_served_from_cache_witness:
  "generated (generate_text config
     \<lparr>now_cache = 10, now_limits = 11,
      post_first = Response 200 (Some (Json_list [Item_dict (Some ''ok'')])),
      post_retry = Timeout, now_update = 12, now_store = 13\<rparr>
     (init_hf_api 0) ''hello'' 500 True) = Some ''ok''
   \<and> generated (generate_text config
     \<lparr>now_cache = 20, now_limits = 21, post_first = Timeout, post_retry = Timeout,
      now_update = 22, now_store = 23\<rparr>
     (api (generate_text config
       \<lparr>now_cache = 10, now_limits = 11,
        post_first = Response 200 (Some (Json_list [Item_dict (Some ''ok'')])),
        post_retry = Timeout, now_update = 12, now_store = 13\<rparr>
       (init_hf_api 0) ''hello'' 500 True)) ''hello'' 500 True) = Some ''ok''
   \<and> posts (generate_text config
     \<lparr>now_cache = 10, now_limits = 11,
      post_first = Response 200 (Some (Json_list [Item_dict (Some ''ok'')])),
      post_retry = Timeout, now_update = 12, now_store = 13\<rparr>
     (init_hf_api 0) ''hello'' 500 True)
     + posts (generate_text config
     \<lparr>now_cache = 20, now_limits = 21, post_first = Timeout, post_retry = Timeout,
      now_update = 22, now_store = 23\<rparr>
     (api (generate_text config
       \<lparr>now_cache = 10, now_limits = 11,
        post_first = Response 200 (Some (Json_list [Item_dict (Some ''ok'')])),
        post_retry = Timeout, now_update = 12, now_store = 13\<rparr>
       (init_hf_api 0) ''hello'' 500 True)) ''hello'' 500 True) = 1"
proof -
  let ?env1 = "\<lparr>now_cache = 10, now_limits = 11,
      post_first = Response 200 (Some (Json_list [Item_dict (Some ''ok'')])),
      post_retry = Timeout, now_update = 12, now_store = 13\<rparr>"
  let ?env2 = "\<lparr>now_cache = 20, now_limits = 21, post_first = Timeout, post_retry = Timeout,
      now_update = 22, now_store = 23\<rparr>"
  let ?out1 = "generate_text config ?env1 (init_hf_api 0) ''hello'' 500 True"
  let ?out2 = "generate_text config ?env2 (api ?out1) ''hello'' 500 True"
  have g1: "generated ?out1 = Some ''ok''"
    by (simp add: first_call_example)
  have ne: "''ok'' \<noteq> []" by simp
  have ttl: "\<forall>d tc. cache (api ?out1) (get_cache_key config ''hello'' 500) = Some (d, tc)
            \<longrightarrow> now_cache ?env2 - tc < cache_ttl"
    unfolding first_call_example by (simp add: get_cache_key_def config_def cache_ttl_def)
  have miss: "\<not> cache_fresh (now_cache ?env1) (init_hf_api 0) (get_cache_key config ''hello'' 500)"
    by (simp add: cache_fresh_def init_hf_api_def)
  have ok: "\<forall>body. post_first ?env1 \<noteq> Response 503 body"
    by simp
  from second_call_served_from_cache [OF refl g1 ne refl ttl] miss ok
  have "generated ?out2 = Some ''ok'' \<and> posts ?out1 + posts ?out2 = 1"
    by simp
  with g1 show ?thesis by simp
qed

end
